theory Spec2Isabelle
  imports Main
begin

section \<open>Constant folding driver (taichi/transforms/constant\_fold.cpp)\<close>

text \<open>
  \<open>CompileConfig\<close> is declared outside the two files; the four fields the driver reads
  or writes are named here and every other field lives in the record's extension part.
\<close>

record CompileConfig =
  debug :: bool
  advanced_optimization :: bool
  constant_folding :: bool
  external_optimization_level :: int

text \<open>
  \<open>Program\<close>: the configuration plus everything else (the JIT evaluator cache, result
  buffers, ...) in the extension part.
\<close>

record 'c Program =
  config :: "'c CompileConfig_scheme"

text \<open>\<open>ConstantFoldPass::Args\<close> carries the program pointer.\<close>

record ('c, 'p) Args =
  program :: "('c, 'p) Program_scheme"

text \<open>
  One round of the loop body of \<open>ConstantFold::run\<close>, that is
  \<open>node->accept(&folder)\<close> followed by \<open>folder.modifier.modify_ir()\<close>. Both
  \<open>IRNode::accept\<close> and \<open>DelayedIRModifier::modify_ir\<close> are declared elsewhere, so
  a round is a parameter of the model: from the program and the IR it yields the answer
  of \<open>modify_ir\<close>, the IR and the program afterwards (the visitors create kernels in
  the program's evaluator cache and launch them).
\<close>

type_synonym ('c, 'p, 'ir) fold_round =
  "('c, 'p) Program_scheme \<Rightarrow> 'ir \<Rightarrow> bool \<times> 'ir \<times> ('c, 'p) Program_scheme"

text \<open>
  The \<open>while (true)\<close> loop of \<open>run\<close>. The loop has no bound in the source; the fuel
  counts rounds, and running out of fuel (\<open>None\<close>) stands for a loop that has not
  returned.
\<close>

fun run_loop ::
  "('c, 'p, 'ir) fold_round \<Rightarrow> nat \<Rightarrow> 'ir \<Rightarrow> ('c, 'p) Program_scheme \<Rightarrow> bool
     \<Rightarrow> (bool \<times> 'ir \<times> ('c, 'p) Program_scheme) option" where
  "run_loop round 0 node prog modified = None"
| "run_loop round (Suc fuel) node prog modified =
     (case round prog node of
        (True, node', prog') \<Rightarrow> run_loop round fuel node' prog' True
      | (False, node', prog') \<Rightarrow> Some (modified, node', prog'))"

text \<open>The three assignments made before the loop.\<close>

definition folding_config :: "'c CompileConfig_scheme \<Rightarrow> 'c CompileConfig_scheme" where
  "folding_config c =
     c\<lparr>advanced_optimization := False, constant_folding := False,
       external_optimization_level := 0\<rparr>"

text \<open>\<open>ConstantFold::run(node, program)\<close>.\<close>

definition run ::
  "('c, 'p, 'ir) fold_round \<Rightarrow> nat \<Rightarrow> 'ir \<Rightarrow> ('c, 'p) Program_scheme
     \<Rightarrow> (bool \<times> 'ir \<times> ('c, 'p) Program_scheme) option" where
  "run round fuel node prog =
     (let program_compile_config_org = config prog;
          prog1 = prog\<lparr>config := folding_config (config prog)\<rparr>
      in case run_loop round fuel node prog1 False of
           None \<Rightarrow> None
         | Some (modified, node', prog2) \<Rightarrow>
             Some (modified, node', prog2\<lparr>config := program_compile_config_org\<rparr>))"

text \<open>\<open>irpass::constant_fold(root, config, args)\<close>.\<close>

definition constant_fold ::
  "('c, 'p, 'ir) fold_round \<Rightarrow> nat \<Rightarrow> 'ir \<Rightarrow> 'd CompileConfig_scheme \<Rightarrow> ('c, 'p) Args
     \<Rightarrow> (bool \<times> 'ir \<times> ('c, 'p) Program_scheme) option" where
  "constant_fold round fuel root cfg args =
     (if debug cfg then Some (False, root, program args)
      else if \<not> advanced_optimization cfg then Some (False, root, program args)
      else run round fuel root (program args))"

text \<open>
  A round that folds something leaves fewer foldable statements behind; \<open>shrinks round m\<close>
  says that \<open>m\<close> is such a count for \<open>round\<close>.
\<close>

definition shrinks :: "('c, 'p, 'ir) fold_round \<Rightarrow> ('ir \<Rightarrow> nat) \<Rightarrow> bool" where
  "shrinks round m \<longleftrightarrow>
     (\<forall>prog node node' prog'. round prog node = (True, node', prog') \<longrightarrow> m node' < m node)"

text \<open>A toy round used to run the driver: the IR is a count of foldable statements.\<close>

definition countdown_round :: "(unit, unit, nat) fold_round" where
  "countdown_round prog n = (0 < n, n - 1, prog)"

text \<open>
  A round that reads the configuration: its IR is a count of foldable statements together
  with a log, and every round appends the three fields it finds in \<open>program->config\<close>.
\<close>

definition recording_round :: "(unit, unit, nat \<times> (bool \<times> bool \<times> int) list) fold_round" where
  "recording_round prog ir =
     (0 < fst ir,
      (fst ir - 1,
       snd ir @ [(advanced_optimization (config prog), constant_folding (config prog),
                  external_optimization_level (config prog))]),
      prog)"

definition demo_ir :: "nat \<times> (bool \<times> bool \<times> int) list" where
  "demo_ir = (2, [])"

definition demo_config :: "CompileConfig" where
  "demo_config =
     \<lparr>debug = False, advanced_optimization = True, constant_folding = True,
      external_optimization_level = 3\<rparr>"

definition demo_program :: "unit Program" where
  "demo_program = \<lparr>config = demo_config\<rparr>"

definition demo_args :: "(unit, unit) Args" where
  "demo_args = \<lparr>program = demo_program\<rparr>"

section \<open>State flow graph (taichi/program/state\_flow\_graph.h)\<close>

subsection \<open>Data model of the header\<close>

text \<open>
  \<open>Node *\<close>: nodes are owned by the graph and named by address everywhere else, so the
  model keeps the node objects in a store indexed by address.
\<close>

type_synonym node_ptr = nat

text \<open>
  \<open>StateToNodesMap\<close> is a small vector of (state, node set) pairs. The node sets are kept
  as duplicate-free lists so that the loops over them can be written as folds.
\<close>

type_synonym 's StateToNodesMap = "('s \<times> node_ptr list) list"

text \<open>
  \<open>TaskMeta\<close> is declared in async\_utils.h; the graph reads its two state sets.
  \<open>listgen_snode\<close> is the scheduling hint of the spec: \<open>Some sn\<close> for a task that
  generates the list of the structure \<open>sn\<close>.
\<close>

record 's TaskMeta =
  input_states :: "'s list"
  output_states :: "'s list"
  listgen_snode :: "nat option"

text \<open>\<open>struct Node\<close>; \<open>meta\<close> is a pointer and may be null.\<close>

record ('s, 'r) Node =
  rec :: 'r
  meta :: "'s TaskMeta option"
  is_initial_node :: bool
  node_id :: int
  pending_node_id :: int
  input_edges :: "'s StateToNodesMap"
  output_edges :: "'s StateToNodesMap"

definition pending :: "('s, 'r) Node \<Rightarrow> bool" where
  "pending n \<longleftrightarrow> pending_node_id n \<ge> 0"

definition executed :: "('s, 'r) Node \<Rightarrow> bool" where
  "executed n \<longleftrightarrow> pending_node_id n = - 1"

definition mark_executed :: "('s, 'r) Node \<Rightarrow> ('s, 'r) Node" where
  "mark_executed n = n\<lparr>pending_node_id := - 1\<rparr>"

text \<open>
  \<open>Node::has_state_flow(state, destination)\<close>. Dereferencing a null \<open>meta\<close> is
  undefined behaviour in the source: \<open>None\<close>.
\<close>

definition has_state_flow ::
  "('s, 'r) Node \<Rightarrow> 's \<Rightarrow> ('s, 'r) Node \<Rightarrow> bool option" where
  "has_state_flow self state destination =
     (case meta destination of
        None \<Rightarrow> None
      | Some m \<Rightarrow> Some (state \<in> set (input_states m)))"

definition demo_reader :: "(nat, string) Node" where
  "demo_reader =
     \<lparr>rec = ''reader'', meta = Some \<lparr>input_states = [7, 9], output_states = [4], listgen_snode = None\<rparr>,
      is_initial_node = False, node_id = 2, pending_node_id = 1,
      input_edges = [], output_edges = []\<rparr>"

definition demo_writer :: "(nat, string) Node" where
  "demo_writer =
     \<lparr>rec = ''writer'', meta = Some \<lparr>input_states = [], output_states = [7], listgen_snode = None\<rparr>,
      is_initial_node = False, node_id = 1, pending_node_id = 0,
      input_edges = [], output_edges = []\<rparr>"


text \<open>
  The private members of \<open>class StateFlowGraph\<close> that the operations below touch.
  The source's names end in an underscore (\<^verbatim>\<open>nodes_\<close>, \<^verbatim>\<open>first_pending_task_index_\<close>,
  ...), which is not a name here, so the underscore is dropped. The vector \<open>nodes\<close>
  owns the nodes: the model keeps the order in \<open>nodes\<close> (a list of addresses) and the
  objects in \<open>heap\<close>, which has an entry exactly for the owned nodes.
  \<open>first_pending_task_index\<close> is an index into \<open>nodes\<close> and is kept as a natural
  number.
\<close>

record ('s, 'r) StateFlowGraph =
  heap :: "node_ptr \<rightharpoonup> ('s, 'r) Node"
  nodes :: "node_ptr list"
  initial_node :: node_ptr
  first_pending_task_index :: nat
  latest_state_owner :: "'s \<rightharpoonup> node_ptr"
  latest_state_readers :: "'s StateToNodesMap"
  list_up_to_date :: "nat \<Rightarrow> bool"

text \<open>\<open>size()\<close> and \<open>num_pending_tasks()\<close>, both inline in the header.\<close>

definition size_graph :: "('s, 'r) StateFlowGraph \<Rightarrow> nat" where
  "size_graph g = length (nodes g)"

definition num_pending_tasks :: "('s, 'r) StateFlowGraph \<Rightarrow> int" where
  "num_pending_tasks g = int (length (nodes g)) - int (first_pending_task_index g)"

subsection \<open>The edge stores\<close>

text \<open>
  Modelled from the spec: the operations on \<open>StateToNodesMap\<close> are not in the header.
  The spec describes a tiny vector of (key, neighbour set) pairs searched linearly:
  lookup finds the entry of a state (no entry: no neighbours), insertion adds the node to
  the entry's set or appends a new entry, erasure takes the node out of the entry's set.
\<close>

fun get_nodes :: "'s StateToNodesMap \<Rightarrow> 's \<Rightarrow> node_ptr list" where
  "get_nodes [] s = []"
| "get_nodes ((k, ns) # m) s = (if k = s then ns else get_nodes m s)"

fun insert_into :: "'s StateToNodesMap \<Rightarrow> 's \<Rightarrow> node_ptr \<Rightarrow> 's StateToNodesMap" where
  "insert_into [] s n = [(s, [n])]"
| "insert_into ((k, ns) # m) s n =
     (if k = s then (k, if n \<in> set ns then ns else ns @ [n]) # m
      else (k, ns) # insert_into m s n)"

fun erase_from :: "'s StateToNodesMap \<Rightarrow> 's \<Rightarrow> node_ptr \<Rightarrow> 's StateToNodesMap" where
  "erase_from [] s n = []"
| "erase_from ((k, ns) # m) s n =
     (if k = s then (k, removeAll n ns) # m else (k, ns) # erase_from m s n)"

fun clear_entry :: "'s StateToNodesMap \<Rightarrow> 's \<Rightarrow> 's StateToNodesMap" where
  "clear_entry [] s = []"
| "clear_entry ((k, ns) # m) s =
     (if k = s then (k, []) # m else (k, ns) # clear_entry m s)"

text \<open>
  The (state, neighbour) pairs in the order a loop over the store meets them. The store
  has one entry per state; a second entry for a state already met would never be found by
  a lookup, and the loop passes over it.
\<close>

definition edge_list :: "'s StateToNodesMap \<Rightarrow> ('s \<times> node_ptr) list" where
  "edge_list m = concat (map (\<lambda>s. map (Pair s) (get_nodes m s)) (remdups (map fst m)))"

text \<open>
  \<open>B.input_edges[s]\<close> and \<open>A.output_edges[s]\<close> for nodes named by address; a node
  the graph does not own has no edges.
\<close>

definition in_nodes :: "('s, 'r) StateFlowGraph \<Rightarrow> node_ptr \<Rightarrow> 's \<Rightarrow> node_ptr list" where
  "in_nodes g b s = (case heap g b of None \<Rightarrow> [] | Some n \<Rightarrow> get_nodes (input_edges n) s)"

definition out_nodes :: "('s, 'r) StateFlowGraph \<Rightarrow> node_ptr \<Rightarrow> 's \<Rightarrow> node_ptr list" where
  "out_nodes g a s = (case heap g a of None \<Rightarrow> [] | Some n \<Rightarrow> get_nodes (output_edges n) s)"

text \<open>All predecessors and successors of a node, over every state.\<close>

definition in_neighbours :: "('s, 'r) StateFlowGraph \<Rightarrow> node_ptr \<Rightarrow> node_ptr list" where
  "in_neighbours g b =
     (case heap g b of None \<Rightarrow> [] | Some n \<Rightarrow> map snd (edge_list (input_edges n)))"

definition out_neighbours :: "('s, 'r) StateFlowGraph \<Rightarrow> node_ptr \<Rightarrow> node_ptr list" where
  "out_neighbours g a =
     (case heap g a of None \<Rightarrow> [] | Some n \<Rightarrow> map snd (edge_list (output_edges n)))"

subsection \<open>Edge insertion and removal\<close>

text \<open>
  Writing to a node through its address. A pointer to a node the graph does not own is
  undefined in the source (spec, section 7); the model leaves the store alone there.
\<close>

definition update_node ::
  "node_ptr \<Rightarrow> (('s, 'r) Node \<Rightarrow> ('s, 'r) Node) \<Rightarrow> ('s, 'r) StateFlowGraph
     \<Rightarrow> ('s, 'r) StateFlowGraph" where
  "update_node p f g =
     (case heap g p of None \<Rightarrow> g | Some n \<Rightarrow> g\<lparr>heap := (heap g)(p \<mapsto> f n)\<rparr>)"

text \<open>
  Modelled from the spec: the body of \<open>insert_edge(from, to, state)\<close> is not in the
  header. An edge lives in two stores: \<open>to\<close> enters \<open>from.output_edges[state]\<close> and
  \<open>from\<close> enters \<open>to.input_edges[state]\<close>; the per-state neighbour collections are
  sets, so a neighbour already present is not added again.
\<close>

definition insert_edge ::
  "node_ptr \<Rightarrow> node_ptr \<Rightarrow> 's \<Rightarrow> ('s, 'r) StateFlowGraph \<Rightarrow> ('s, 'r) StateFlowGraph" where
  "insert_edge src dst state g =
     update_node dst (\<lambda>n. n\<lparr>input_edges := insert_into (input_edges n) state src\<rparr>)
       (update_node src (\<lambda>n. n\<lparr>output_edges := insert_into (output_edges n) state dst\<rparr>) g)"

text \<open>
  Modelled from the spec: taking one edge out again, the step of which disconnecting and
  rewiring are made (the bodies of \<open>disconnect_with\<close>, \<open>disconnect_all\<close> and
  \<open>replace_reference\<close> are not in the header).
\<close>

definition remove_edge ::
  "node_ptr \<Rightarrow> node_ptr \<Rightarrow> 's \<Rightarrow> ('s, 'r) StateFlowGraph \<Rightarrow> ('s, 'r) StateFlowGraph" where
  "remove_edge src dst state g =
     update_node dst (\<lambda>n. n\<lparr>input_edges := erase_from (input_edges n) state src\<rparr>)
       (update_node src (\<lambda>n. n\<lparr>output_edges := erase_from (output_edges n) state dst\<rparr>) g)"

text \<open>
  Modelled from the spec: \<open>Node::disconnect_with(other)\<close> takes out every edge between
  the node and \<open>other\<close>, in both directions and for every state.
\<close>

definition disconnect_with ::
  "node_ptr \<Rightarrow> node_ptr \<Rightarrow> ('s, 'r) StateFlowGraph \<Rightarrow> ('s, 'r) StateFlowGraph" where
  "disconnect_with p other g =
     (case heap g p of
        None \<Rightarrow> g
      | Some n \<Rightarrow>
          fold (\<lambda>(s, q) g'. if q = other then remove_edge p q s g' else g')
            (edge_list (output_edges n))
            (fold (\<lambda>(s, q) g'. if q = other then remove_edge q p s g' else g')
               (edge_list (input_edges n)) g))"

text \<open>
  Modelled from the spec: \<open>Node::disconnect_all()\<close> takes out every edge of the node.
\<close>

definition disconnect_all ::
  "node_ptr \<Rightarrow> ('s, 'r) StateFlowGraph \<Rightarrow> ('s, 'r) StateFlowGraph" where
  "disconnect_all p g =
     (case heap g p of
        None \<Rightarrow> g
      | Some n \<Rightarrow>
          fold (\<lambda>(s, q). remove_edge p q s) (edge_list (output_edges n))
            (fold (\<lambda>(s, q). remove_edge q p s) (edge_list (input_edges n)) g))"

text \<open>
  Modelled from the spec (4.6): \<open>replace_reference(a, b, only_output_edges)\<close> rewires
  every edge that names \<open>a\<close> to name \<open>b\<close> instead: each edge \<open>a \<rightarrow> c\<close> becomes
  \<open>b \<rightarrow> c\<close> and, unless limited to outgoing edges, each edge \<open>c \<rightarrow> a\<close> becomes
  \<open>c \<rightarrow> b\<close>.
\<close>

definition replace_reference ::
  "node_ptr \<Rightarrow> node_ptr \<Rightarrow> bool \<Rightarrow> ('s, 'r) StateFlowGraph \<Rightarrow> ('s, 'r) StateFlowGraph" where
  "replace_reference node_a node_b only_output_edges g =
     (case heap g node_a of
        None \<Rightarrow> g
      | Some n \<Rightarrow>
          (let g1 = fold (\<lambda>(s, c) g'. insert_edge node_b c s (remove_edge node_a c s g'))
                      (edge_list (output_edges n)) g
           in if only_output_edges then g1
              else fold (\<lambda>(s, c) g'. insert_edge c node_b s (remove_edge c node_a s g'))
                     (edge_list (input_edges n)) g1))"


subsection \<open>Construction\<close>

text \<open>
  Modelled from the spec: the constructor \<open>StateFlowGraph(engine, ir_bank)\<close> is not in
  the header. The graph starts with the single synthetic initial node, which is executed
  (\<open>pending_node_id = -1\<close>, as the header's comment on that field says) and is the only
  node before the pending boundary. \<open>r0\<close> is the empty launch record it holds.
\<close>

definition initial_node_obj :: "'r \<Rightarrow> ('s, 'r) Node" where
  "initial_node_obj r0 =
     \<lparr>rec = r0, meta = Some \<lparr>input_states = [], output_states = [], listgen_snode = None\<rparr>,
      is_initial_node = True, node_id = 0, pending_node_id = - 1,
      input_edges = [], output_edges = []\<rparr>"

definition initial_graph :: "'r \<Rightarrow> ('s, 'r) StateFlowGraph" where
  "initial_graph r0 =
     \<lparr>heap = [0 \<mapsto> initial_node_obj r0], nodes = [0], initial_node = 0,
      first_pending_task_index = 1, latest_state_owner = Map.empty,
      latest_state_readers = [], list_up_to_date = (\<lambda>sn. False)\<rparr>"

text \<open>
  Modelled from the spec (4.2): the latest writer of a state, or the initial node when
  nothing has written it yet.
\<close>

definition owner_of :: "('s, 'r) StateFlowGraph \<Rightarrow> 's \<Rightarrow> node_ptr" where
  "owner_of g s = (case latest_state_owner g s of None \<Rightarrow> initial_node g | Some p \<Rightarrow> p)"

text \<open>
  Modelled from the spec (4.2): the body of \<open>insert_node\<close> is not in the header. For
  every state in the new node's \<open>input_states\<close>: a flow edge from the state's latest
  owner (or the initial node), and the new node is recorded as a reader of the state. For
  every state in its \<open>output_states\<close>: a dependency edge from every current reader and
  from the current owner, then the new node becomes the owner and the reader set is
  cleared. Edges are drawn from nodes already in the graph (I3), so the readers and owners
  consulted are the ones recorded by earlier tasks: the new node is entered as a reader
  once its output states are wired. \<open>input_states\<close> and \<open>output_states\<close> are sets in
  the source, so each state is visited once. The new node goes to the end of the sequence
  with the ids of that position (I2). A null \<open>meta\<close> is undefined in the source; the
  model leaves the graph alone there.
\<close>

definition wire_input ::
  "node_ptr \<Rightarrow> 's \<Rightarrow> ('s, 'r) StateFlowGraph \<Rightarrow> ('s, 'r) StateFlowGraph" where
  "wire_input p s g = insert_edge (owner_of g s) p s g"

definition wire_output ::
  "node_ptr \<Rightarrow> 's \<Rightarrow> ('s, 'r) StateFlowGraph \<Rightarrow> ('s, 'r) StateFlowGraph" where
  "wire_output p s g =
     (let g1 = fold (\<lambda>r. insert_edge r p s) (get_nodes (latest_state_readers g) s) g;
          g2 = insert_edge (owner_of g s) p s g1
      in g2\<lparr>latest_state_owner := (latest_state_owner g2)(s \<mapsto> p),
            latest_state_readers := clear_entry (latest_state_readers g2) s\<rparr>)"

definition record_reader ::
  "node_ptr \<Rightarrow> 's \<Rightarrow> ('s, 'r) StateFlowGraph \<Rightarrow> ('s, 'r) StateFlowGraph" where
  "record_reader p s g =
     g\<lparr>latest_state_readers := insert_into (latest_state_readers g) s p\<rparr>"

definition insert_node ::
  "node_ptr \<Rightarrow> ('s, 'r) Node \<Rightarrow> ('s, 'r) StateFlowGraph \<Rightarrow> ('s, 'r) StateFlowGraph" where
  "insert_node p nd g =
     (case meta nd of
        None \<Rightarrow> g
      | Some m \<Rightarrow>
          (let k = length (nodes g);
               nd' = nd\<lparr>node_id := int k,
                        pending_node_id := int k - int (first_pending_task_index g)\<rparr>;
               g0 = g\<lparr>heap := (heap g)(p \<mapsto> nd'), nodes := nodes g @ [p]\<rparr>;
               g1 = fold (wire_input p) (remdups (input_states m)) g0;
               g2 = fold (wire_output p) (remdups (output_states m)) g1
           in fold (record_reader p) (remdups (input_states m)) g2))"

text \<open>The address of a freshly allocated node: one not used by any node of the graph.\<close>

definition new_node_ptr :: "('s, 'r) StateFlowGraph \<Rightarrow> node_ptr" where
  "new_node_ptr g = Suc (foldr max (nodes g) 0)"

text \<open>
  Modelled from the spec (4.2, and the third scenario of section 8): the body of
  \<open>insert_tasks(rec, filter_listgen)\<close> is not in the header. Each launch record gets a
  new node whose meta is looked up from the record (\<open>get_meta\<close>, supplied by the
  upstream analysis). With the filter on, a list-generation task whose structure is known
  up to date is skipped; a list-generation task that is inserted marks its structure up
  to date.
\<close>

definition new_node :: "('r \<Rightarrow> 's TaskMeta) \<Rightarrow> 'r \<Rightarrow> ('s, 'r) Node" where
  "new_node get_meta r =
     \<lparr>rec = r, meta = Some (get_meta r), is_initial_node = False, node_id = 0,
      pending_node_id = 0, input_edges = [], output_edges = []\<rparr>"

definition insert_task ::
  "('r \<Rightarrow> 's TaskMeta) \<Rightarrow> bool \<Rightarrow> 'r \<Rightarrow> ('s, 'r) StateFlowGraph \<Rightarrow> ('s, 'r) StateFlowGraph" where
  "insert_task get_meta filter_listgen r g =
     (case listgen_snode (get_meta r) of
        None \<Rightarrow> insert_node (new_node_ptr g) (new_node get_meta r) g
      | Some sn \<Rightarrow>
          if filter_listgen \<and> list_up_to_date g sn then g
          else insert_node (new_node_ptr g) (new_node get_meta r)
                 (g\<lparr>list_up_to_date := (list_up_to_date g)(sn := True)\<rparr>))"

definition insert_tasks ::
  "('r \<Rightarrow> 's TaskMeta) \<Rightarrow> 'r list \<Rightarrow> bool \<Rightarrow> ('s, 'r) StateFlowGraph
     \<Rightarrow> ('s, 'r) StateFlowGraph" where
  "insert_tasks get_meta recs filter_listgen g =
     fold (insert_task get_meta filter_listgen) recs g"

subsection \<open>Pending tasks, renumbering, deletion\<close>

text \<open>
  Modelled from the spec: \<open>get_pending_tasks()\<close> is the part of the sequence from
  \<open>first_pending_task_index\<close> on, and \<open>get_pending_tasks(begin, end)\<close> its slice
  (the header's comment: \<open>get_pending_tasks()[begin, end)\<close>).
\<close>

definition get_pending_tasks :: "('s, 'r) StateFlowGraph \<Rightarrow> node_ptr list" where
  "get_pending_tasks g = drop (first_pending_task_index g) (nodes g)"

definition get_pending_tasks_range ::
  "nat \<Rightarrow> nat \<Rightarrow> ('s, 'r) StateFlowGraph \<Rightarrow> node_ptr list" where
  "get_pending_tasks_range begin end g = take (end - begin) (drop begin (get_pending_tasks g))"

text \<open>
  Modelled from the spec (4.6): \<open>reid_nodes\<close> and \<open>reid_pending_nodes\<close> recompute
  \<open>node_id\<close> and \<open>pending_node_id\<close> from the current position in the sequence.
\<close>

definition reid_nodes :: "('s, 'r) StateFlowGraph \<Rightarrow> ('s, 'r) StateFlowGraph" where
  "reid_nodes g =
     fold (\<lambda>(i, p). update_node p (\<lambda>n. n\<lparr>node_id := int i\<rparr>)) (enumerate 0 (nodes g)) g"

definition reid_pending_nodes :: "('s, 'r) StateFlowGraph \<Rightarrow> ('s, 'r) StateFlowGraph" where
  "reid_pending_nodes g =
     fold (\<lambda>(i, p). update_node p (\<lambda>n. n\<lparr>pending_node_id := int i\<rparr>))
       (enumerate 0 (get_pending_tasks g)) g"

text \<open>
  Modelled from the spec (4.6): \<open>delete_nodes(indices)\<close> removes nodes, disconnecting
  their edges. The indices are positions in \<open>get_pending_tasks()\<close> (the header's comment
  on \<open>fuse_range\<close>, whose result they are; executed nodes are never deleted, I1). The
  two lookup tables forget the removed nodes. Renumbering is left to the caller.
\<close>

definition delete_nodes ::
  "nat set \<Rightarrow> ('s, 'r) StateFlowGraph \<Rightarrow> ('s, 'r) StateFlowGraph" where
  "delete_nodes indices_to_delete g =
     (let doomed = map snd (filter (\<lambda>(i, p). i \<in> indices_to_delete)
                     (enumerate 0 (get_pending_tasks g)));
          g1 = fold disconnect_all doomed g
      in g1\<lparr>heap := (\<lambda>p. if p \<in> set doomed then None else heap g1 p),
            nodes := filter (\<lambda>p. p \<notin> set doomed) (nodes g1),
            latest_state_owner :=
              (\<lambda>s. case latest_state_owner g1 s of
                      None \<Rightarrow> None
                    | Some p \<Rightarrow> if p \<in> set doomed then None else Some p),
            latest_state_readers :=
              map (\<lambda>(s, ns). (s, filter (\<lambda>p. p \<notin> set doomed) ns))
                (latest_state_readers g1)\<rparr>)"

subsection \<open>Topological order and the hand-off\<close>

text \<open>
  Modelled from the spec (4.6): \<open>topo_sort_nodes\<close> reorders the pending suffix into a
  sequence consistent with the edges, ties broken by the original order. The next node is
  always the first one left, in the original order, none of whose predecessors is still
  left. The spec does not say what happens when no node qualifies (a cycle); the model
  keeps the rest in the order it has.
\<close>

function topo_order :: "(node_ptr \<Rightarrow> node_ptr list) \<Rightarrow> node_ptr list \<Rightarrow> node_ptr list" where
  "topo_order preds rest =
     (case find (\<lambda>x. list_all (\<lambda>q. q \<notin> set rest) (preds x)) rest of
        None \<Rightarrow> rest
      | Some x \<Rightarrow> x # topo_order preds (remove1 x rest))"
  by pat_completeness auto
termination
  by (relation "measure (\<lambda>(preds, rest). length rest)")
     (auto simp: find_Some_iff length_remove1 in_set_conv_nth
        intro!: diff_less length_pos_if_in_set nth_mem)

definition topo_sort_nodes :: "('s, 'r) StateFlowGraph \<Rightarrow> ('s, 'r) StateFlowGraph" where
  "topo_sort_nodes g =
     g\<lparr>nodes := take (first_pending_task_index g) (nodes g)
                 @ topo_order (in_neighbours g) (get_pending_tasks g)\<rparr>"

text \<open>
  Modelled from the spec (4.7): \<open>extract_to_execute\<close> returns the pending nodes' launch
  records in topological order, marks each consumed node executed and advances
  \<open>first_pending_task_index\<close> past them. \<open>mark_executed\<close> is the header's.
\<close>

definition extract_to_execute ::
  "('s, 'r) StateFlowGraph \<Rightarrow> 'r list \<times> ('s, 'r) StateFlowGraph" where
  "extract_to_execute g =
     (let g1 = topo_sort_nodes g;
          consumed = get_pending_tasks g1;
          tasks = List.map_filter (\<lambda>p. map_option rec (heap g1 p)) consumed;
          g2 = fold (\<lambda>p. update_node p mark_executed) consumed g1
      in (tasks, g2\<lparr>first_pending_task_index := length (nodes g2)\<rparr>))"

text \<open>
  Modelled from the spec (4.6): \<open>rebuild_graph(sort)\<close> discards the pending subgraph and
  re-derives it by inserting the same pending launch records again, topologically sorted
  first when \<open>sort\<close> is set. The discard is the spec's full reset: the pending nodes go,
  the executed nodes keep only the edges among themselves (an entry left without a
  neighbour carries no edge and goes too), and both lookup tables start empty.
  (\<open>sort_first\<close> is the parameter \<open>sort\<close> of the source.)
\<close>

definition prune :: "node_ptr list \<Rightarrow> 's StateToNodesMap \<Rightarrow> 's StateToNodesMap" where
  "prune kept m =
     filter (\<lambda>(s, ns). ns \<noteq> []) (map (\<lambda>(s, ns). (s, filter (\<lambda>q. q \<in> set kept) ns)) m)"

definition discard_pending :: "('s, 'r) StateFlowGraph \<Rightarrow> ('s, 'r) StateFlowGraph" where
  "discard_pending g =
     (let kept = take (first_pending_task_index g) (nodes g)
      in g\<lparr>heap := (\<lambda>p. if p \<in> set kept
                          then map_option
                                 (\<lambda>n. n\<lparr>input_edges := prune kept (input_edges n),
                                        output_edges := prune kept (output_edges n)\<rparr>)
                                 (heap g p)
                          else None),
           nodes := kept,
           latest_state_owner := Map.empty,
           latest_state_readers := []\<rparr>)"

definition rebuild_graph ::
  "('r \<Rightarrow> 's TaskMeta) \<Rightarrow> bool \<Rightarrow> ('s, 'r) StateFlowGraph \<Rightarrow> ('s, 'r) StateFlowGraph" where
  "rebuild_graph get_meta sort_first g =
     (let g1 = (if sort_first then topo_sort_nodes g else g);
          tasks = List.map_filter (\<lambda>p. map_option rec (heap g1 p)) (get_pending_tasks g1)
      in insert_tasks get_meta tasks False (discard_pending g1))"

subsection \<open>Reachability\<close>

text \<open>
  Modelled from the spec (4.3): the body of \<open>compute_transitive_closure(begin, end)\<close> is
  not in the header. A \<open>bit::Bitset\<close> is a natural number read as a bit vector. Every
  node of the window starts with its own bit. The backward sweep visits the window from
  its last node to its first and ORs the node's bitset into the bitset of each of its
  predecessors; the forward sweep visits it from first to last and ORs the node's bitset
  into the bitset of each of its successors. A neighbour is found in the window through
  its \<open>pending_node_id\<close>; neighbours outside the window are skipped. The result is the
  pair (descendants, ancestors), one bitset per node of the window.
\<close>

definition window_index ::
  "('s, 'r) StateFlowGraph \<Rightarrow> nat \<Rightarrow> nat \<Rightarrow> node_ptr \<Rightarrow> nat option" where
  "window_index g begin n e =
     (case heap g e of
        None \<Rightarrow> None
      | Some nd \<Rightarrow>
          (let tmp_id = pending_node_id nd - int begin
           in if 0 \<le> tmp_id \<and> tmp_id < int n then Some (nat tmp_id) else None))"

definition or_into :: "nat \<Rightarrow> nat list \<Rightarrow> nat option \<Rightarrow> nat list" where
  "or_into i bs t =
     (case t of None \<Rightarrow> bs | Some j \<Rightarrow> bs[j := or (bs ! j) (bs ! i)])"

definition sweep ::
  "(node_ptr \<Rightarrow> nat option) \<Rightarrow> (node_ptr \<Rightarrow> node_ptr list) \<Rightarrow> (nat \<times> node_ptr) list
     \<Rightarrow> nat list \<Rightarrow> nat list" where
  "sweep widx nbrs order bs =
     fold (\<lambda>(i, p) bs'. fold (\<lambda>e bs''. or_into i bs'' (widx e)) (nbrs p) bs') order bs"

definition compute_transitive_closure ::
  "nat \<Rightarrow> nat \<Rightarrow> ('s, 'r) StateFlowGraph \<Rightarrow> nat list \<times> nat list" where
  "compute_transitive_closure begin end g =
     (let n = end - begin;
          window = enumerate 0 (get_pending_tasks_range begin end g);
          init = map (\<lambda>i. push_bit i 1) [0..<n];
          has_path = sweep (window_index g begin n) (in_neighbours g) (rev window) init;
          has_path_reverse = sweep (window_index g begin n) (out_neighbours g) window init
      in (has_path, has_path_reverse))"


section \<open>Proofs: constant folding driver\<close>

subsection \<open>Properties of the loop\<close>

lemma run_loop_first_round:
  "run_loop round fuel node prog modified = Some (b, node', prog')
     \<Longrightarrow> b = (modified \<or> fst (round prog node))"
proof (induction fuel arbitrary: node prog modified)
  case 0
  then show ?case by simp
next
  case (Suc fuel)
  obtain c n1 p1 where r: "round prog node = (c, n1, p1)"
    by (cases "round prog node") auto
  show ?case
  proof (cases c)
    case True
    with Suc.prems r have "run_loop round fuel n1 p1 True = Some (b, node', prog')"
      by simp
    from Suc.IH [OF this] have "b" by simp
    with True r show ?thesis by simp
  next
    case False
    with Suc.prems r show ?thesis by auto
  qed
qed

lemma run_loop_returns:
  assumes "shrinks round m"
  shows "m node < fuel \<Longrightarrow> \<exists>r. run_loop round fuel node prog modified = Some r"
proof (induction fuel arbitrary: node prog modified)
  case 0
  then show ?case by simp
next
  case (Suc fuel)
  obtain c n1 p1 where r: "round prog node = (c, n1, p1)"
    by (cases "round prog node") auto
  show ?case
  proof (cases c)
    case True
    with r assms have "m n1 < m node" by (auto simp: shrinks_def)
    with Suc.prems have "m n1 < fuel" by simp
    from Suc.IH [OF this] obtain r' where "run_loop round fuel n1 p1 True = Some r'"
      by blast
    with True r show ?thesis by (cases r') simp
  next
    case False
    with r show ?thesis by simp
  qed
qed

lemma run_returns:
  assumes "shrinks round m" and "m node < fuel"
  shows "\<exists>r. run round fuel node prog = Some r"
proof -
  from run_loop_returns [OF assms]
  obtain r where "run_loop round fuel node (prog\<lparr>config := folding_config (config prog)\<rparr>) False
      = Some r"
    by blast
  then show ?thesis
    by (cases r) (simp add: run_def)
qed

lemma run_config:
  "run round fuel node prog = Some (b, node', prog') \<Longrightarrow> config prog' = config prog"
  by (auto simp: run_def Let_def split: option.splits)

lemma run_modified:
  "run round fuel node prog = Some (b, node', prog')
     \<Longrightarrow> b = fst (round (prog\<lparr>config := folding_config (config prog)\<rparr>) node)"
  by (auto simp: run_def Let_def split: option.splits dest: run_loop_first_round)

lemma run_loop_fixed_config:
  assumes keep: "\<forall>p n. config (snd (snd (round p n))) = config p"
  shows "config prog = c
     \<Longrightarrow> run_loop (\<lambda>p. round (p\<lparr>config := c\<rparr>)) fuel node prog modified
         = run_loop round fuel node prog modified"
proof (induction fuel arbitrary: node prog modified)
  case 0
  then show ?case by simp
next
  case (Suc fuel)
  from Suc.prems have same: "prog\<lparr>config := c\<rparr> = prog" by auto
  obtain b n1 p1 where r: "round prog node = (b, n1, p1)"
    by (cases "round prog node") auto
  with keep [rule_format, of prog node] Suc.prems have "config p1 = c" by simp
  from Suc.IH [OF this] r same show ?case by (cases b) simp_all
qed

subsection \<open>The claims about the driver\<close>

text \<open>
  C9. \<open>irpass::constant_fold\<close> is a guarded no-op. When \<open>config.debug\<close> is set or
  \<open>config.advanced_optimization\<close> is clear it returns false with the IR and the program
  untouched, whatever a folding round would have done (the round is never run: the result
  holds for every round and with no fuel at all). When both guards pass it is
  \<open>ConstantFold::run\<close> on the program of \<open>args\<close>. Its boolean result is true exactly
  when the guards pass and the first folding round modified the IR. With a round that
  shrinks a count of foldable statements the call returns.
\<close>

theorem constant_fold_guarded_noop:
  "(debug cfg \<or> \<not> advanced_optimization cfg \<longrightarrow>
      constant_fold round fuel root cfg args = Some (False, root, program args))
   \<and> (\<not> debug cfg \<and> advanced_optimization cfg \<longrightarrow>
      constant_fold round fuel root cfg args = run round fuel root (program args))
   \<and> (constant_fold round fuel root cfg args = Some (b, root', prog') \<longrightarrow>
      (b \<longleftrightarrow> \<not> debug cfg \<and> advanced_optimization cfg
         \<and> fst (round ((program args)\<lparr>config := folding_config (config (program args))\<rparr>) root)))
   \<and> (shrinks round m \<longrightarrow> (\<exists>r. constant_fold round (Suc (m root)) root cfg args = Some r))"
proof (intro conjI impI)
  assume "debug cfg \<or> \<not> advanced_optimization cfg"
  then show "constant_fold round fuel root cfg args = Some (False, root, program args)"
    by (auto simp: constant_fold_def)
next
  assume "\<not> debug cfg \<and> advanced_optimization cfg"
  then show "constant_fold round fuel root cfg args = run round fuel root (program args)"
    by (simp add: constant_fold_def)
next
  assume r: "constant_fold round fuel root cfg args = Some (b, root', prog')"
  show "b \<longleftrightarrow> \<not> debug cfg \<and> advanced_optimization cfg
         \<and> fst (round ((program args)\<lparr>config := folding_config (config (program args))\<rparr>) root)"
  proof (cases "debug cfg \<or> \<not> advanced_optimization cfg")
    case True
    with r show ?thesis by (auto simp: constant_fold_def split: if_splits)
  next
    case False
    with r have "run round fuel root (program args) = Some (b, root', prog')"
      by (simp add: constant_fold_def)
    from run_modified [OF this] False show ?thesis by simp
  qed
next
  assume s: "shrinks round m"
  show "\<exists>r. constant_fold round (Suc (m root)) root cfg args = Some r"
  proof (cases "debug cfg \<or> \<not> advanced_optimization cfg")
    case True
    then show ?thesis by (auto simp: constant_fold_def)
  next
    case False
    from run_returns [OF s, of root "Suc (m root)" "program args"] False
    show ?thesis by (simp add: constant_fold_def)
  qed
qed

theorem constant_fold_guarded_noop_witness:
  "constant_fold countdown_round 0 (2::nat) (demo_config\<lparr>debug := True\<rparr>) demo_args
     = Some (False, 2, demo_program)
   \<and> constant_fold countdown_round 0 (2::nat) (demo_config\<lparr>advanced_optimization := False\<rparr>)
       demo_args = Some (False, 2, demo_program)
   \<and> constant_fold countdown_round 3 (2::nat) demo_config demo_args
     = run countdown_round 3 2 demo_program
   \<and> constant_fold countdown_round 3 (2::nat) demo_config demo_args
     = Some (True, 0, demo_program)
   \<and> shrinks countdown_round id
   \<and> (\<exists>r. constant_fold countdown_round (Suc (id 2)) (2::nat) demo_config demo_args = Some r)"
proof -
  have s: "shrinks countdown_round id"
    by (auto simp: shrinks_def countdown_round_def)
  have e: "constant_fold countdown_round 3 (2::nat) demo_config demo_args
     = Some (True, 0, demo_program)"
    by (simp add: constant_fold_def run_def countdown_round_def demo_config_def
        demo_args_def demo_program_def folding_config_def numeral_3_eq_3)
  have d: "debug (demo_config\<lparr>debug := True\<rparr>)" by simp
  have a: "\<not> advanced_optimization (demo_config\<lparr>advanced_optimization := False\<rparr>)" by simp
  have g: "\<not> debug demo_config \<and> advanced_optimization demo_config"
    by (simp add: demo_config_def)
  note t = constant_fold_guarded_noop
  from t [of "demo_config\<lparr>debug := True\<rparr>" countdown_round 0 2 demo_args] d
  have 1: "constant_fold countdown_round 0 (2::nat) (demo_config\<lparr>debug := True\<rparr>) demo_args
     = Some (False, 2, demo_program)"
    by (simp add: demo_args_def)
  from t [of "demo_config\<lparr>advanced_optimization := False\<rparr>" countdown_round 0 2 demo_args] a
  have 2: "constant_fold countdown_round 0 (2::nat)
      (demo_config\<lparr>advanced_optimization := False\<rparr>) demo_args = Some (False, 2, demo_program)"
    by (simp add: demo_args_def)
  from t [of demo_config countdown_round 3 2 demo_args] g
  have 3: "constant_fold countdown_round 3 (2::nat) demo_config demo_args
     = run countdown_round 3 2 demo_program"
    by (simp add: demo_args_def)
  from t [of demo_config countdown_round _ 2 demo_args _ _ _ id] s
  have 4: "\<exists>r. constant_fold countdown_round (Suc (id 2)) (2::nat) demo_config demo_args = Some r"
    by blast
  from 1 2 3 4 e s show ?thesis by blast
qed

text \<open>
  C10. \<open>ConstantFold::run\<close> leaves \<open>program->config\<close> as it found it: whenever it
  returns, the configuration of the program afterwards is the one before the call, for
  every IR node and every folding round (also one that writes to the configuration). With
  a round that shrinks a count of foldable statements it does return. During the loop the
  configuration is the saved one with \<open>advanced_optimization\<close> false,
  \<open>constant_folding\<close> false and \<open>external_optimization_level\<close> 0: when the rounds
  themselves leave the configuration alone, forcing exactly that configuration before
  every round changes nothing, and it is the configuration the first round is run under
  in any case. The configuration installed for the loop differs from the saved one in
  these three fields only.
\<close>

theorem run_restores_config:
  "(run round fuel node prog = Some (b, node', prog') \<longrightarrow> config prog' = config prog)
   \<and> (shrinks round m \<longrightarrow>
        (\<exists>b node' prog'. run round (Suc (m node)) node prog = Some (b, node', prog')
           \<and> config prog' = config prog))
   \<and> ((\<forall>p n. config (snd (snd (round p n))) = config p) \<longrightarrow>
        run (\<lambda>p. round (p\<lparr>config := (config prog)\<lparr>advanced_optimization := False,
                 constant_folding := False, external_optimization_level := 0\<rparr>\<rparr>))
          fuel node prog
          = run round fuel node prog)
   \<and> run round (Suc fuel) node prog =
        (case round (prog\<lparr>config := (config prog)\<lparr>advanced_optimization := False,
                 constant_folding := False, external_optimization_level := 0\<rparr>\<rparr>) node of
           (True, node1, prog1) \<Rightarrow>
             (case run_loop round fuel node1 prog1 True of
                None \<Rightarrow> None
              | Some (modified, node2, prog2) \<Rightarrow>
                  Some (modified, node2, prog2\<lparr>config := config prog\<rparr>))
         | (False, node1, prog1) \<Rightarrow> Some (False, node1, prog1\<lparr>config := config prog\<rparr>))
   \<and> advanced_optimization (folding_config c) = False
   \<and> constant_folding (folding_config c) = False
   \<and> external_optimization_level (folding_config c) = 0
   \<and> debug (folding_config c) = debug c
   \<and> CompileConfig.more (folding_config c) = CompileConfig.more c"
proof (intro conjI impI)
  assume "run round fuel node prog = Some (b, node', prog')"
  then show "config prog' = config prog" by (rule run_config)
next
  assume s: "shrinks round m"
  from run_returns [OF s, of node "Suc (m node)" prog]
  obtain r where r: "run round (Suc (m node)) node prog = Some r" by auto
  obtain b1 n1 p1 where "r = (b1, n1, p1)" by (cases r) auto
  with r run_config [of round "Suc (m node)" node prog b1 n1 p1]
  show "\<exists>b node' prog'. run round (Suc (m node)) node prog = Some (b, node', prog')
           \<and> config prog' = config prog"
    by auto
next
  assume keep: "\<forall>p n. config (snd (snd (round p n))) = config p"
  have "config (prog\<lparr>config := folding_config (config prog)\<rparr>) = folding_config (config prog)"
    by simp
  from run_loop_fixed_config [OF keep this]
  have "run (\<lambda>p. round (p\<lparr>config := folding_config (config prog)\<rparr>)) fuel node prog
          = run round fuel node prog"
    by (simp add: run_def)
  then show "run (\<lambda>p. round (p\<lparr>config := (config prog)\<lparr>advanced_optimization := False,
                 constant_folding := False, external_optimization_level := 0\<rparr>\<rparr>))
          fuel node prog
          = run round fuel node prog"
    by (simp add: folding_config_def)
next
  obtain c1 n1 p1 where r:
    "round (prog\<lparr>config := (config prog)\<lparr>advanced_optimization := False,
        constant_folding := False, external_optimization_level := 0\<rparr>\<rparr>) node = (c1, n1, p1)"
    by (cases "round (prog\<lparr>config := (config prog)\<lparr>advanced_optimization := False,
        constant_folding := False, external_optimization_level := 0\<rparr>\<rparr>) node") auto
  then show "run round (Suc fuel) node prog =
        (case round (prog\<lparr>config := (config prog)\<lparr>advanced_optimization := False,
                 constant_folding := False, external_optimization_level := 0\<rparr>\<rparr>) node of
           (True, node1, prog1) \<Rightarrow>
             (case run_loop round fuel node1 prog1 True of
                None \<Rightarrow> None
              | Some (modified, node2, prog2) \<Rightarrow>
                  Some (modified, node2, prog2\<lparr>config := config prog\<rparr>))
         | (False, node1, prog1) \<Rightarrow> Some (False, node1, prog1\<lparr>config := config prog\<rparr>))"
    by (cases c1) (simp_all add: run_def folding_config_def)
qed (simp_all add: folding_config_def)

theorem run_restores_config_witness:
  "run recording_round 3 demo_ir demo_program
     = Some (True, (0, [(False, False, 0), (False, False, 0), (False, False, 0)]), demo_program)
   \<and> advanced_optimization (config demo_program)
   \<and> constant_folding (config demo_program)
   \<and> external_optimization_level (config demo_program) = 3
   \<and> shrinks recording_round fst
   \<and> (\<exists>b node' prog'. run recording_round (Suc (fst demo_ir)) demo_ir demo_program
          = Some (b, node', prog') \<and> config prog' = config demo_program)
   \<and> (\<forall>p n. config (snd (snd (recording_round p n))) = config p)
   \<and> run (\<lambda>p. recording_round (p\<lparr>config := (config demo_program)\<lparr>advanced_optimization := False,
               constant_folding := False, external_optimization_level := 0\<rparr>\<rparr>)) 3 demo_ir
        demo_program
      = Some (True, (0, [(False, False, 0), (False, False, 0), (False, False, 0)]), demo_program)"
proof -
  have s: "shrinks recording_round fst"
    by (auto simp: shrinks_def recording_round_def)
  have k: "\<forall>p n. config (snd (snd (recording_round p n))) = config p"
    by (simp add: recording_round_def)
  have e: "run recording_round 3 demo_ir demo_program
     = Some (True, (0, [(False, False, 0), (False, False, 0), (False, False, 0)]), demo_program)"
    by (simp add: run_def recording_round_def demo_program_def demo_config_def
        folding_config_def numeral_3_eq_3 demo_ir_def)
  have c: "advanced_optimization (config demo_program) \<and> constant_folding (config demo_program)
      \<and> external_optimization_level (config demo_program) = 3"
    by (simp add: demo_program_def demo_config_def)
  note t = run_restores_config [where round = recording_round and prog = demo_program
      and node = demo_ir and m = fst and fuel = 3 and b = True and node' = "(0, [])"
      and prog' = demo_program and c = demo_config]
  from t [THEN conjunct2, THEN conjunct1, THEN mp, OF s]
  have 2: "\<exists>b node' prog'. run recording_round (Suc (fst demo_ir)) demo_ir demo_program
          = Some (b, node', prog') \<and> config prog' = config demo_program" .
  from t [THEN conjunct2, THEN conjunct2, THEN conjunct1, THEN mp, OF k]
  have "run (\<lambda>p. recording_round (p\<lparr>config := (config demo_program)\<lparr>advanced_optimization := False,
               constant_folding := False, external_optimization_level := 0\<rparr>\<rparr>)) 3 demo_ir
        demo_program = run recording_round 3 demo_ir demo_program" .
  with e have 3: "run (\<lambda>p. recording_round (p\<lparr>config := (config demo_program)\<lparr>advanced_optimization := False,
               constant_folding := False, external_optimization_level := 0\<rparr>\<rparr>)) 3 demo_ir
        demo_program
      = Some (True, (0, [(False, False, 0), (False, False, 0), (False, False, 0)]), demo_program)"
    by simp
  from e c s 2 k 3 show ?thesis by blast
qed

section \<open>Proofs: state flow graph\<close>

subsection \<open>Edge classification\<close>

text \<open>
  C4. For a destination with a valid meta, \<open>has_state_flow(state, destination)\<close> is true
  exactly when the destination's \<open>input_states\<close> contains the state. The answer is a
  function of the state and the destination's meta alone: the node it is asked of, and
  every other field of the destination (ids, edge stores), do not matter.
\<close>

theorem has_state_flow_iff_input_state:
  "(meta destination = Some m \<longrightarrow>
      has_state_flow self state destination = Some (state \<in> set (input_states m)))
   \<and> (meta destination = meta destination' \<longrightarrow>
      has_state_flow self state destination = has_state_flow self' state destination')"
  by (simp add: has_state_flow_def)

theorem has_state_flow_iff_input_state_witness:
  "meta demo_reader = Some \<lparr>input_states = [7, 9], output_states = [4], listgen_snode = None\<rparr>
   \<and> has_state_flow demo_writer 7 demo_reader = Some True
   \<and> has_state_flow demo_writer 4 demo_reader = Some False
   \<and> meta demo_reader = meta (demo_reader\<lparr>node_id := 5, input_edges := [(7, [1])]\<rparr>)
   \<and> has_state_flow demo_writer 7 demo_reader
       = has_state_flow demo_reader 7 (demo_reader\<lparr>node_id := 5, input_edges := [(7, [1])]\<rparr>)"
proof -
  have m: "meta demo_reader = Some \<lparr>input_states = [7, 9], output_states = [4], listgen_snode = None\<rparr>"
    by (simp add: demo_reader_def)
  have m': "meta demo_reader = meta (demo_reader\<lparr>node_id := 5, input_edges := [(7, [1])]\<rparr>)"
    by simp
  note t = has_state_flow_iff_input_state [where destination = demo_reader
      and m = "\<lparr>input_states = [7, 9], output_states = [4], listgen_snode = None\<rparr>"]
  from t [where self = demo_writer and state = 7 and self' = demo_writer
      and destination' = demo_reader] m
  have 1: "has_state_flow demo_writer 7 demo_reader = Some True" by simp
  from t [where self = demo_writer and state = 4 and self' = demo_writer
      and destination' = demo_reader] m
  have 2: "has_state_flow demo_writer 4 demo_reader = Some False" by simp
  from t [where self = demo_writer and state = 7 and self' = demo_reader
      and destination' = "demo_reader\<lparr>node_id := 5, input_edges := [(7, [1])]\<rparr>"] m'
  have 3: "has_state_flow demo_writer 7 demo_reader
       = has_state_flow demo_reader 7 (demo_reader\<lparr>node_id := 5, input_edges := [(7, [1])]\<rparr>)"
    by blast
  from m 1 2 m' 3 show ?thesis by blast
qed

end
